theory Spec2Isabelle
  imports Complex_Main "HOL-Library.Sublist" "HOL-Library.Multiset"
begin

section \<open>Network composition and evolution scheduling (networks/network.py)\<close>

text \<open>
  A shallow embedding of the \<^verbatim>\<open>Network\<close> class and of the time-step helpers of
  \<^verbatim>\<open>NetworksPython/networks/network.py\<close>.

  Conventions of the embedding.
  \<^item> Time steps are Python floats that the source converts to \<^verbatim>\<open>Decimal\<close> through
    their decimal string. They are modelled as exact rationals (\<^typ>\<open>rat\<close>): every
    \<^verbatim>\<open>Decimal\<close> value is a rational, and the arithmetic of the source is taken to be
    exact in the derivation of the network time step: the rounding of binary floats and
    of the decimal context is not modelled there. The \<^verbatim>\<open>Decimal\<close> remainder and \<^verbatim>\<open>gcd\<close> at
    the 28-digit precision of the context are modelled separately and related to the
    exact ones.
  \<^item> Python integers are \<^typ>\<open>int\<close>.
  \<^item> Layer objects live in a store indexed by their identity; the network refers to
    them by identity, as the Python references do.
  \<^item> A Python \<^verbatim>\<open>set\<close> of layers is a list of identities: the list order is the order in
    which the set is iterated and popped, and every theorem holds for every order.
  \<^item> An exception is a value of type \<open>error\<close>; a method that mutates the network returns
    the network as it is when the method returns or raises.
\<close>

subsection \<open>Exceptions\<close>

datatype error =
    NetworkError string
  | ValueError
  | KeyError
  | IndexError
  | ZeroDivisionError
  | InvalidOperation
  | TypeError
  | RecursionError
  | LayerError string

subsection \<open>Decimal helpers: remainder, is\_multiple, gcd, lcm\<close>

text \<open>Relative and absolute tolerance and the decimal base, the module constants.\<close>

definition tol_rel :: rat where
  "tol_rel = 1 / 100000"

definition decimal_base :: rat where
  "decimal_base = 1 / 10000000"

definition tol_abs :: rat where
  "tol_abs = 1 / 10000000000"

text \<open>
  \<^verbatim>\<open>a % b\<close> on \<^verbatim>\<open>Decimal\<close>: the quotient is truncated towards zero, so the remainder
  takes the sign of the dividend. The source only evaluates it for \<open>b \<noteq> 0\<close> in \<^verbatim>\<open>gcd\<close>;
  in \<^verbatim>\<open>is_multiple\<close> a zero divisor raises \<^verbatim>\<open>decimal.InvalidOperation\<close>.
\<close>

definition trunc_rat :: "rat \<Rightarrow> int" where
  "trunc_rat x = (if x < 0 then \<lceil>x\<rceil> else \<lfloor>x\<rfloor>)"

definition dec_rem :: "rat \<Rightarrow> rat \<Rightarrow> rat" where
  "dec_rem a b = a - b * of_int (trunc_rat (a / b))"

text \<open>\<^verbatim>\<open>np.round\<close>: round to the nearest integer, a tie to the even neighbour.\<close>

definition np_round :: "rat \<Rightarrow> int" where
  "np_round x =
     (let f = \<lfloor>x\<rfloor>; d = x - of_int f
      in if d < 1 / 2 then f
         else if 1 / 2 < d then f + 1
         else if even f then f else f + 1)"

text \<open>
  \<^verbatim>\<open>
  def is_multiple(a, b, tol_rel=tol_rel, tol_abs=tol_abs) -> bool:
      a = Decimal(str(a)); b = Decimal(str(b))
      ...
      min_remainder = min(a % b, b - a % b)
      return min_remainder < tol_rel * b + tol_abs
  \<close>
\<close>

definition is_multiple :: "rat \<Rightarrow> rat \<Rightarrow> error + bool" where
  "is_multiple a b =
     (if b = 0 then Inl InvalidOperation
      else Inr (min (dec_rem a b) (b - dec_rem a b) < tol_rel * b + tol_abs))"

text \<open>
  \<^verbatim>\<open>
  def gcd(a, b) -> Decimal:
      a = Decimal(str(a)); b = Decimal(str(b))
      if b == 0:
          return a
      else:
          return gcd(b, a % b)
  \<close>
  This is the recursion on exact values, with the exact remainder; it is what the
  derivation of the network time step below uses. The recursion is not structural; it
  is defined as a partial function whose value \<open>None\<close> stands for a recursion that never
  returns. The recursion on \<^verbatim>\<open>Decimal\<close> values at the precision of the context is
  \<open>gcd_decimal\<close> below; the two agree as long as the coefficients stay within the
  precision.
\<close>

partial_function (option) gcd_py :: "rat \<Rightarrow> rat \<Rightarrow> rat option" where
  "gcd_py a b = (if b = 0 then Some a else gcd_py b (dec_rem a b))"

declare gcd_py.simps [code]

text \<open>
  \<^verbatim>\<open>
  def lcm(a, b) -> Decimal:
      a_rnd = np.round(float(a) / decimal_base)
      b_rnd = np.round(float(b) / decimal_base)
      if (np.abs(a_rnd - float(a) / decimal_base) > tol_rel
          or np.abs(b_rnd - float(b) / decimal_base) > tol_rel):
          raise ValueError(...)
      a = Decimal(str(a_rnd)); b = Decimal(str(b_rnd))
      return a / gcd(a, b) * b * Decimal(str(decimal_base))
  \<close>
  A division by a zero gcd raises \<^verbatim>\<open>decimal.InvalidOperation\<close>.
\<close>

definition lcm_py :: "rat \<Rightarrow> rat \<Rightarrow> error + rat" where
  "lcm_py a b =
     (let a_rnd = np_round (a / decimal_base);
          b_rnd = np_round (b / decimal_base)
      in if tol_rel < \<bar>of_int a_rnd - a / decimal_base\<bar>
            \<or> tol_rel < \<bar>of_int b_rnd - b / decimal_base\<bar>
         then Inl ValueError
         else (case gcd_py (of_int a_rnd) (of_int b_rnd) of
                 None \<Rightarrow> Inl RecursionError
               | Some g \<Rightarrow>
                   if g = 0 then Inl InvalidOperation
                   else Inr (of_int a_rnd / g * of_int b_rnd * decimal_base)))"

subsection \<open>Layers and the network\<close>

text \<open>
  The attributes of a layer that the network reads or writes. \<open>pre_layer\<close>,
  \<open>external_input\<close> and \<open>timesteps_per_network_dt\<close> are assigned by the network;
  \<open>l_timestep\<close> is the layer's own clock \<^verbatim>\<open>_timestep\<close>, and \<open>vState\<close> its state
  vector. Input and output classes are compared as objects and printed by their
  \<^verbatim>\<open>__name__\<close>.
\<close>

type_synonym lid = nat

datatype pyclass = PyClass (cls_id: nat) (cls_name: string)

record layer =
  l_name :: string
  l_size :: int
  l_size_in :: int
  l_dt :: rat
  l_input_type :: pyclass
  l_output_type :: pyclass
  pre_layer :: "lid option"
  external_input :: bool
  l_timestep :: int
  timesteps_per_network_dt :: int
  vState :: "rat list"

text \<open>
  The network: \<^verbatim>\<open>layerset\<close>, the layer objects it can reach, \<^verbatim>\<open>_dt\<close> (\<open>None\<close> when it
  is \<^verbatim>\<open>None\<close>), \<^verbatim>\<open>_force_dt\<close>, \<^verbatim>\<open>_timestep\<close> and \<^verbatim>\<open>evol_order\<close>.
\<close>

record network =
  layerset :: "lid list"
  store :: "lid \<Rightarrow> layer"
  net_dt :: "rat option"
  force_dt :: bool
  net_timestep :: int
  evol_order :: "lid list"

text \<open>\<^verbatim>\<open>lyr.t\<close>, the time of a layer: its clock times its time step.\<close>

definition layer_t :: "layer \<Rightarrow> rat" where
  "layer_t l = of_int (l_timestep l) * l_dt l"

text \<open>Python's \<^verbatim>\<open>str\<close> of an integer, used by the error messages.\<close>

fun str_nat :: "nat \<Rightarrow> string" where
  "str_nat n =
     (if n < 10 then [''0123456789'' ! n]
      else str_nat (n div 10) @ [''0123456789'' ! (n mod 10)])"

definition str_int :: "int \<Rightarrow> string" where
  "str_int i = (if i < 0 then CHR ''-'' # str_nat (nat (- i)) else str_nat (nat i))"

subsection \<open>Decimal values at the precision of the context\<close>











subsection \<open>Evolution order\<close>

text \<open>
  \<^verbatim>\<open>
  def find_next_layer(candidates: set) -> Layer:
      while True:
          try:
              candidate_lyr = candidates.pop()
          except KeyError:
              raise NetworkError("Network: Cannot resolve evolution order of layers")
          else:
              if not (candidate_lyr.pre_layer in remaining_lyrs):
                  return candidate_lyr
  \<close>
  The list of candidates is the copy of the remaining layers in the order in which
  \<^verbatim>\<open>pop\<close> hands them out.
\<close>

fun find_next_layer :: "(lid \<Rightarrow> layer) \<Rightarrow> lid list \<Rightarrow> lid list \<Rightarrow> error + lid" where
  "find_next_layer st remaining_lyrs [] =
     Inl (NetworkError ''Network: Cannot resolve evolution order of layers'')"
| "find_next_layer st remaining_lyrs (candidate_lyr # candidates) =
     (if (case pre_layer (st candidate_lyr) of
            None \<Rightarrow> False
          | Some p \<Rightarrow> p \<in> set remaining_lyrs)
      then find_next_layer st remaining_lyrs candidates
      else Inr candidate_lyr)"

text \<open>
  \<^verbatim>\<open>
  remaining_lyrs: set = self.layerset.copy()
  order = []
  while bool(remaining_lyrs):
      next_lyr = find_next_layer(remaining_lyrs.copy())
      order.append(next_lyr)
      remaining_lyrs.remove(next_lyr)
  return order
  \<close>
\<close>

function order_loop :: "(lid \<Rightarrow> layer) \<Rightarrow> lid list \<Rightarrow> lid list \<Rightarrow> error + lid list" where
  "order_loop st remaining_lyrs order =
     (if remaining_lyrs = [] then Inr order
      else (case find_next_layer st remaining_lyrs remaining_lyrs of
              Inl e \<Rightarrow> Inl e
            | Inr next_lyr \<Rightarrow>
                order_loop st (removeAll next_lyr remaining_lyrs) (order @ [next_lyr])))"
  by pat_completeness auto
termination
proof (relation "measure (\<lambda>(st, remaining_lyrs, order). length remaining_lyrs)")
  show "wf (measure (\<lambda>(st :: lid \<Rightarrow> layer, remaining_lyrs :: lid list, order :: lid list).
              length remaining_lyrs))"
    by simp
next
  fix st :: "lid \<Rightarrow> layer" and remaining_lyrs order :: "lid list" and x :: lid
  assume r: "find_next_layer st remaining_lyrs remaining_lyrs = Inr x"
  have "find_next_layer st remaining_lyrs cs = Inr x \<Longrightarrow> x \<in> set cs" for cs
    by (induction cs) (auto split: if_splits)
  from this [OF r] have "length (removeAll x remaining_lyrs) < length remaining_lyrs"
    by (rule length_removeAll_less)
  then show "((st, removeAll x remaining_lyrs, order @ [x]), (st, remaining_lyrs, order))
               \<in> measure (\<lambda>(st, remaining_lyrs, order). length remaining_lyrs)"
    by simp
qed

definition set_evolution_order :: "network \<Rightarrow> error + lid list" where
  "set_evolution_order net = order_loop (store net) (layerset net) []"

subsection \<open>connect\<close>

text \<open>
  \<^verbatim>\<open>
  def connect(self, pre_layer, post_layer, verbose=False):
      if pre_layer.size != post_layer.size_in:
          raise NetworkError("Network: Dimensions of layers `{}` (size={}) and `{}`"
              .format(pre_layer.name, pre_layer.size, post_layer.name)
              + " (size_in={}) do not match".format(post_layer.size_in))
      if pre_layer.output_type != post_layer.input_type:
          raise NetworkError(
              "Network: Input / output classes of layer `{}` (output_type = {})"
              .format(pre_layer.name, pre_layer.output_type.__name__)
              + " and `{}` (input_type = {}) do not match"
              .format(post_layer.name, post_layer.input_type.__name__))
      post_layer.pre_layer = pre_layer
      try:
          self.evol_order = self._set_evolution_order()
      except NetworkError as e:
          post_layer.pre_layer = None
          raise e
  \<close>
\<close>

definition dimension_message :: "layer \<Rightarrow> layer \<Rightarrow> string" where
  "dimension_message pre post =
     ''Network: Dimensions of layers `'' @ l_name pre @ ''` (size='' @ str_int (l_size pre)
     @ '') and `'' @ l_name post @ ''`'' @ '' (size_in='' @ str_int (l_size_in post)
     @ '') do not match''"

definition class_message :: "layer \<Rightarrow> layer \<Rightarrow> string" where
  "class_message pre post =
     ''Network: Input / output classes of layer `'' @ l_name pre @ ''` (output_type = ''
     @ cls_name (l_output_type pre) @ '')'' @ '' and `'' @ l_name post
     @ ''` (input_type = '' @ cls_name (l_input_type post) @ '') do not match''"

definition set_pre_layer :: "network \<Rightarrow> lid \<Rightarrow> lid option \<Rightarrow> network" where
  "set_pre_layer net i p = net\<lparr>store := (store net)(i := (store net i)\<lparr>pre_layer := p\<rparr>)\<rparr>"

definition connect :: "network \<Rightarrow> lid \<Rightarrow> lid \<Rightarrow> error option \<times> network" where
  "connect net pre post =
     (if l_size (store net pre) \<noteq> l_size_in (store net post)
      then (Some (NetworkError (dimension_message (store net pre) (store net post))), net)
      else if l_output_type (store net pre) \<noteq> l_input_type (store net post)
      then (Some (NetworkError (class_message (store net pre) (store net post))), net)
      else (let net1 = set_pre_layer net post (Some pre)
            in case set_evolution_order net1 of
                 Inr order \<Rightarrow> (None, net1\<lparr>evol_order := order\<rparr>)
               | Inl (NetworkError m) \<Rightarrow> (Some (NetworkError m), set_pre_layer net1 post None)
               | Inl e \<Rightarrow> (Some e, net1)))"

subsection \<open>\_set\_dt\<close>

text \<open>
  \<^verbatim>\<open>
  def _set_dt(self, max_factor: float = 100):
      if self._force_dt:
          for lyr in self.layerset:
              if not is_multiple(self.dt, lyr.dt):
                  raise ValueError(...)
      else:
          dt_list = [Decimal(str(lyr.dt)) for lyr in self.layerset]
          if not dt_list:
              return None
          t_lcm = dt_list[0]
          for dt in dt_list[1:]:
              try:
                  t_lcm = lcm(t_lcm, dt)
              except ValueError:
                  raise ValueError(...)
          if (t_lcm > max_factor * np.amax(dt_list)
              or any(not is_multiple(t_lcm, dt) for dt in dt_list)):
              raise ValueError(...)
          self._dt = float(t_lcm)
      for lyr in self.layerset:
          lyr._timesteps_per_network_dt = int(np.round(self._dt / lyr.dt))
  \<close>
  The method has no \<^verbatim>\<open>return\<close> with a value: when it returns, it returns \<^verbatim>\<open>None\<close>, which
  is the \<open>Inr None\<close> of the model.
\<close>

fun fold_lcm :: "rat \<Rightarrow> rat list \<Rightarrow> error + rat" where
  "fold_lcm t_lcm [] = Inr t_lcm"
| "fold_lcm t_lcm (dt # dts) =
     (case lcm_py t_lcm dt of
        Inl e \<Rightarrow> Inl e
      | Inr t \<Rightarrow> fold_lcm t dts)"

fun any_not_multiple :: "rat \<Rightarrow> rat list \<Rightarrow> error + bool" where
  "any_not_multiple t_lcm [] = Inr False"
| "any_not_multiple t_lcm (dt # dts) =
     (case is_multiple t_lcm dt of
        Inl e \<Rightarrow> Inl e
      | Inr m \<Rightarrow> if \<not> m then Inr True else any_not_multiple t_lcm dts)"

fun forced_check :: "rat option \<Rightarrow> rat list \<Rightarrow> error option" where
  "forced_check D [] = None"
| "forced_check D (dt # dts) =
     (case D of
        None \<Rightarrow> Some InvalidOperation
      | Some d \<Rightarrow>
          (case is_multiple d dt of
             Inl e \<Rightarrow> Some e
           | Inr m \<Rightarrow> if \<not> m then Some ValueError else forced_check D dts))"

fun set_timesteps :: "rat option \<Rightarrow> lid list \<Rightarrow> (lid \<Rightarrow> layer) \<Rightarrow> error option \<times> (lid \<Rightarrow> layer)" where
  "set_timesteps D [] st = (None, st)"
| "set_timesteps D (i # is) st =
     (case D of
        None \<Rightarrow> (Some TypeError, st)
      | Some d \<Rightarrow>
          if l_dt (st i) = 0 then (Some ZeroDivisionError, st)
          else set_timesteps D is
                 (st(i := (st i)\<lparr>timesteps_per_network_dt := np_round (d / l_dt (st i))\<rparr>)))"

definition store_timesteps :: "network \<Rightarrow> (error + rat option) \<times> network" where
  "store_timesteps net =
     (case set_timesteps (net_dt net) (layerset net) (store net) of
        (Some e, st) \<Rightarrow> (Inl e, net\<lparr>store := st\<rparr>)
      | (None, st) \<Rightarrow> (Inr None, net\<lparr>store := st\<rparr>))"

definition set_dt :: "network \<Rightarrow> int \<Rightarrow> (error + rat option) \<times> network" where
  "set_dt net max_factor =
     (let dt_list = map (\<lambda>i. l_dt (store net i)) (layerset net)
      in if force_dt net
         then (case forced_check (net_dt net) dt_list of
                 Some e \<Rightarrow> (Inl e, net)
               | None \<Rightarrow> store_timesteps net)
         else (case dt_list of
                 [] \<Rightarrow> (Inr None, net)
               | d0 # rest \<Rightarrow>
                   (case fold_lcm d0 rest of
                      Inl e \<Rightarrow> (Inl e, net)
                    | Inr t_lcm \<Rightarrow>
                        if of_int max_factor * fold max rest d0 < t_lcm
                        then (Inl ValueError, net)
                        else (case any_not_multiple t_lcm dt_list of
                                Inl e \<Rightarrow> (Inl e, net)
                              | Inr True \<Rightarrow> (Inl ValueError, net)
                              | Inr False \<Rightarrow> store_timesteps (net\<lparr>net_dt := Some t_lcm\<rparr>)))))"

subsection \<open>remove\_layer\<close>

text \<open>
  \<^verbatim>\<open>
  def remove_layer(self, del_layer: Layer):
      for lyr in self.layerset:
          if del_layer is lyr.pre_layer:
              lyr.pre_layer = None
      self.layerset.remove(del_layer)
      self._dt = self._set_dt()
      self.evol_order = self._set_evolution_order()
  \<close>
\<close>

fun clear_pre_layer :: "lid \<Rightarrow> lid list \<Rightarrow> (lid \<Rightarrow> layer) \<Rightarrow> (lid \<Rightarrow> layer)" where
  "clear_pre_layer del_layer [] st = st"
| "clear_pre_layer del_layer (i # is) st =
     clear_pre_layer del_layer is
       (if pre_layer (st i) = Some del_layer then st(i := (st i)\<lparr>pre_layer := None\<rparr>) else st)"

definition remove_layer :: "network \<Rightarrow> lid \<Rightarrow> error option \<times> network" where
  "remove_layer net del_layer =
     (let net1 = net\<lparr>store := clear_pre_layer del_layer (layerset net) (store net)\<rparr>
      in if del_layer \<notin> set (layerset net) then (Some KeyError, net1)
         else (case set_dt (net1\<lparr>layerset := removeAll del_layer (layerset net)\<rparr>) 100 of
                 (Inl e, net2) \<Rightarrow> (Some e, net2)
               | (Inr v, net2) \<Rightarrow>
                   (let net3 = net2\<lparr>net_dt := v\<rparr>
                    in case set_evolution_order net3 of
                         Inl e \<Rightarrow> (Some e, net3)
                       | Inr order \<Rightarrow> (None, net3\<lparr>evol_order := order\<rparr>))))"

subsection \<open>\_check\_sync and evolve\<close>

text \<open>
  \<^verbatim>\<open>
  def _check_sync(self, verbose: bool = True) -> bool:
      in_sync = True
      ...
      for lyr in self.evol_order:
          if lyr._timestep != self._timestep * lyr._timesteps_per_network_dt:
              in_sync = False
              print(...)
      if in_sync:
          ...
      else:
          raise NetworkError("Network: Not all layers are in sync with the network.")
      return in_sync
  \<close>
\<close>

definition layer_in_sync :: "network \<Rightarrow> lid \<Rightarrow> bool" where
  "layer_in_sync net i =
     (l_timestep (store net i) = net_timestep net * timesteps_per_network_dt (store net i))"

definition check_sync :: "network \<Rightarrow> error + bool" where
  "check_sync net =
     (if list_all (layer_in_sync net) (evol_order net) then Inr True
      else Inl (NetworkError ''Network: Not all layers are in sync with the network.''))"

text \<open>
  The \<^verbatim>\<open>evolve\<close> method of a layer belongs to the layer implementation. It is a
  parameter of the model: given the layer, its input and the number of its own time
  steps, it raises or returns the layer as it is afterwards together with its output.
  The type \<open>'ts\<close> of time series is left open.

  \<^verbatim>\<open>
  signal_dict = {"external": ts_input}
  self._check_sync(verbose=False)
  for lyr in self.evol_order:
      if lyr.external_input:
          ts_current_input = ts_input
      elif lyr.pre_layer is not None:
          ts_current_input = signal_dict[lyr.pre_layer.name]
      else:
          ts_current_input = None
      signal_dict[lyr.name] = lyr.evolve(
          ts_input=ts_current_input,
          num_timesteps=int(num_timesteps * lyr._timesteps_per_network_dt),
          verbose=verbose)
      ...
  self._timestep += num_timesteps
  self._check_sync(verbose=False)
  return signal_dict
  \<close>
  \<open>num_timesteps\<close> is the number of network steps once the source has resolved it (the
  argument itself, or \<^verbatim>\<open>floor(duration / dt)\<close>). The trial markers and the name that the
  source attaches to each output do not enter the model. Besides its result and the
  network, \<open>evolve\<close> reports the calls it has made to the layers: which layer, and for
  how many steps.
\<close>

type_synonym 'ts layer_evolve = "layer \<Rightarrow> 'ts option \<Rightarrow> int \<Rightarrow> error + layer \<times> 'ts"

type_synonym 'ts signal_dict = "string \<rightharpoonup> 'ts option"

fun evolve_layers ::
  "'ts layer_evolve \<Rightarrow> 'ts option \<Rightarrow> int \<Rightarrow> lid list
     \<Rightarrow> (lid \<Rightarrow> layer) \<times> 'ts signal_dict \<times> (lid \<times> int) list
     \<Rightarrow> error option \<times> (lid \<Rightarrow> layer) \<times> 'ts signal_dict \<times> (lid \<times> int) list" where
  "evolve_layers lev ts_input num_timesteps [] (st, signal_dict, calls) =
     (None, st, signal_dict, calls)"
| "evolve_layers lev ts_input num_timesteps (i # order) (st, signal_dict, calls) =
     (case (if external_input (st i) then Inr ts_input
            else (case pre_layer (st i) of
                    Some p \<Rightarrow>
                      (case signal_dict (l_name (st p)) of
                         None \<Rightarrow> Inl KeyError
                       | Some ts \<Rightarrow> Inr ts)
                  | None \<Rightarrow> Inr None)) of
        Inl e \<Rightarrow> (Some e, st, signal_dict, calls)
      | Inr ts_current_input \<Rightarrow>
          (let n = num_timesteps * timesteps_per_network_dt (st i)
           in case lev (st i) ts_current_input n of
                Inl e \<Rightarrow> (Some e, st, signal_dict, calls @ [(i, n)])
              | Inr (lyr, out) \<Rightarrow>
                  evolve_layers lev ts_input num_timesteps order
                    (st(i := lyr), signal_dict(l_name lyr \<mapsto> Some out), calls @ [(i, n)])))"

definition evolve ::
  "'ts layer_evolve \<Rightarrow> network \<Rightarrow> 'ts option \<Rightarrow> int
     \<Rightarrow> (error + 'ts signal_dict) \<times> network \<times> (lid \<times> int) list" where
  "evolve lev net ts_input num_timesteps =
     (case check_sync net of
        Inl e \<Rightarrow> (Inl e, net, [])
      | Inr _ \<Rightarrow>
          (case evolve_layers lev ts_input num_timesteps (evol_order net)
                  (store net, [''external'' \<mapsto> ts_input], []) of
             (Some e, st, signal_dict, calls) \<Rightarrow> (Inl e, net\<lparr>store := st\<rparr>, calls)
           | (None, st, signal_dict, calls) \<Rightarrow>
               (let net1 = net\<lparr>store := st, net_timestep := net_timestep net + num_timesteps\<rparr>
                in case check_sync net1 of
                     Inl e \<Rightarrow> (Inl e, net1, calls)
                   | Inr _ \<Rightarrow> (Inr signal_dict, net1, calls))))"

subsection \<open>reset\_all\<close>

text \<open>
  \<^verbatim>\<open>
  def reset_all(self):
      for lyr in self.layerset:
          lyr.reset_all()
      self._timestep = 0
  \<close>
  \<^verbatim>\<open>lyr.reset_all()\<close> is dispatched to the class of each layer: it is abstract in
  \<^verbatim>\<open>layers/layer.py\<close> and every layer class brings its own. Like the \<^verbatim>\<open>evolve\<close> of a layer
  it is a parameter of the model: for each layer object, a function from the layer as
  it is to the layer as its \<^verbatim>\<open>reset_all\<close> leaves it.
\<close>

type_synonym layer_reset = "lid \<Rightarrow> layer \<Rightarrow> layer"

definition reset_all :: "layer_reset \<Rightarrow> network \<Rightarrow> network" where
  "reset_all lreset net =
     net\<lparr>store := fold (\<lambda>lyr st. st(lyr := lreset lyr (st lyr))) (layerset net) (store net),
         net_timestep := 0\<rparr>"

text \<open>
  One layer class of the repository, \<^verbatim>\<open>ButterMelFilter\<close> (\<^verbatim>\<open>layers/internal/butter_mel_filter.py\<close>):
  \<^verbatim>\<open>
  def reset_all(self):
      self._timestep = 0
  \<close>
\<close>

definition butter_mel_reset_all :: "layer \<Rightarrow> layer" where
  "butter_mel_reset_all l = l\<lparr>l_timestep := 0\<rparr>"

subsection \<open>train: batch sizes and callback flags\<close>

text \<open>
  \<^verbatim>\<open>
  if nums_ts_batch is None:
      if batch_durs is None:
          v_ts_batch = np.array([num_timesteps], dtype=int)
      ...
  else:
      if np.size(nums_ts_batch) == 1:
          num_ts_single_batch = np.asscalar(np.asarray(nums_ts_batch, dtype=int))
          num_batches = int(np.ceil(num_timesteps / num_ts_single_batch))
          v_ts_batch = np.repeat(num_ts_single_batch, num_batches)
          v_ts_batch[-1] = num_timesteps - np.sum(v_ts_batch[:-1])
      else:
          v_ts_batch = np.asarray(nums_ts_batch)
  diff_ts: int = num_timesteps - np.sum(v_ts_batch)
  if diff_ts > 0:
      v_ts_batch = np.r_[v_ts_batch, diff_ts]
  elif diff_ts < 0:
      first_idx_beyond: int = np.where(np.cumsum(v_ts_batch) > num_timesteps)[0][0]
      v_ts_batch = v_ts_batch[: first_idx_beyond + 1]
      # - Correct last value
  num_batches: int = np.size(v_ts_batch)
  ...
  for batch_num, current_ts in enumerate(v_ts_batch):
      next_batch(batch_num, current_ts, num_batches)
          # evolves for current_ts steps, then calls
          # training_fct(self, signal_dict, batch_num == 0, batch_num == num_batches - 1)
  \<close>
  \<open>nums_ts_batch\<close> is \<open>None\<close>, or the list of the step counts given (a scalar is the list
  of one element); batch durations are turned into step counts by the source and then
  follow the same branches. A zero batch size raises \<^verbatim>\<open>ZeroDivisionError\<close>, a negative
  number of repetitions \<^verbatim>\<open>ValueError\<close>, and the assignment to the last element of an empty
  array \<^verbatim>\<open>IndexError\<close>. \<open>train\<close> yields, for each batch in turn, the step count passed
  to \<^verbatim>\<open>evolve\<close> and the two flags passed to the callback.
\<close>

definition uniform_batches :: "int \<Rightarrow> int \<Rightarrow> error + int list" where
  "uniform_batches num_timesteps num_ts_single_batch =
     (if num_ts_single_batch = 0 then Inl ZeroDivisionError
      else (let num_batches = \<lceil>(of_int num_timesteps / of_int num_ts_single_batch :: rat)\<rceil>
            in if num_batches < 0 then Inl ValueError
               else if num_batches = 0 then Inl IndexError
               else (let v_ts_batch = replicate (nat num_batches) num_ts_single_batch
                     in Inr (butlast v_ts_batch
                              @ [num_timesteps - sum_list (butlast v_ts_batch)]))))"

fun first_idx_beyond :: "int \<Rightarrow> int \<Rightarrow> int list \<Rightarrow> nat option" where
  "first_idx_beyond num_timesteps cumsum [] = None"
| "first_idx_beyond num_timesteps cumsum (x # xs) =
     (if num_timesteps < cumsum + x then Some 0
      else map_option Suc (first_idx_beyond num_timesteps (cumsum + x) xs))"

definition train_batches :: "int \<Rightarrow> int list option \<Rightarrow> error + int list" where
  "train_batches num_timesteps nums_ts_batch =
     (case (case nums_ts_batch of
              None \<Rightarrow> Inr [num_timesteps]
            | Some nums \<Rightarrow>
                if length nums = 1 then uniform_batches num_timesteps (hd nums)
                else Inr nums) of
        Inl e \<Rightarrow> Inl e
      | Inr v_ts_batch \<Rightarrow>
          (let diff_ts = num_timesteps - sum_list v_ts_batch
           in if 0 < diff_ts then Inr (v_ts_batch @ [diff_ts])
              else if diff_ts < 0
              then (case first_idx_beyond num_timesteps 0 v_ts_batch of
                      None \<Rightarrow> Inl IndexError
                    | Some idx \<Rightarrow> Inr (take (idx + 1) v_ts_batch))
              else Inr v_ts_batch))"

definition batch_calls :: "int list \<Rightarrow> (int \<times> bool \<times> bool) list" where
  "batch_calls v_ts_batch =
     map (\<lambda>(batch_num, current_ts).
            (current_ts, batch_num = 0, int batch_num = int (length v_ts_batch) - 1))
         (enumerate 0 v_ts_batch)"

definition train :: "int \<Rightarrow> int list option \<Rightarrow> error + (int \<times> bool \<times> bool) list" where
  "train num_timesteps nums_ts_batch =
     (case train_batches num_timesteps nums_ts_batch of
        Inl e \<Rightarrow> Inl e
      | Inr v_ts_batch \<Rightarrow> Inr (batch_calls v_ts_batch))"

subsection \<open>Predicates of the specification: predecessor graph, order of occurrence\<close>

text \<open>
  The edges of the predecessor relation between members of the layer set, and the
  position of the first occurrence of an element in a list.
\<close>

definition pred_edges :: "(lid \<Rightarrow> layer) \<Rightarrow> lid list \<Rightarrow> (lid \<times> lid) set" where
  "pred_edges st ls = {(p, l). l \<in> set ls \<and> p \<in> set ls \<and> pre_layer (st l) = Some p}"

definition index_of :: "'a list \<Rightarrow> 'a \<Rightarrow> nat" where
  "index_of xs x = length (takeWhile (\<lambda>y. y \<noteq> x) xs)"

definition occurs_before :: "'a list \<Rightarrow> 'a \<Rightarrow> 'a \<Rightarrow> bool" where
  "occurs_before xs p l = (p \<in> set xs \<and> l \<in> set xs \<and> index_of xs p < index_of xs l)"

subsection \<open>Example layers and networks\<close>

text \<open>
  Three layers of equal size and class: a chain \<open>A \<rightarrow> B \<rightarrow> C\<close> (identities 0, 1, 2),
  and the same layers after \<open>B\<close> has been given \<open>C\<close> as its input, which closes a cycle.
\<close>

definition example_layer :: "string \<Rightarrow> rat \<Rightarrow> lid option \<Rightarrow> layer" where
  "example_layer nm d p =
     \<lparr>l_name = nm, l_size = 1, l_size_in = 1, l_dt = d,
      l_input_type = PyClass 0 ''TSContinuous'', l_output_type = PyClass 0 ''TSContinuous'',
      pre_layer = p, external_input = False, l_timestep = 0,
      timesteps_per_network_dt = 1, vState = [0]\<rparr>"

definition chain_net :: network where
  "chain_net =
     \<lparr>layerset = [2, 1, 0],
      store = (\<lambda>i. if i = 0 then example_layer ''A'' 1 None
                  else if i = 1 then example_layer ''B'' 1 (Some 0)
                  else example_layer ''C'' 1 (Some 1)),
      net_dt = Some 1, force_dt = False, net_timestep = 0, evol_order = [0, 1, 2]\<rparr>"

definition cycle_net :: network where
  "cycle_net = set_pre_layer chain_net 1 (Some 2)"

text \<open>
  Three unconnected layers: \<open>wide\<close> has three outputs where \<open>filt\<close> takes one input, and
  \<open>spikes\<close> emits events where \<open>filt\<close> takes a continuous signal.
\<close>

definition mixed_net :: network where
  "mixed_net =
     \<lparr>layerset = [0, 1, 2],
      store = (\<lambda>i. if i = 0 then (example_layer ''wide'' 1 None)\<lparr>l_size := 3\<rparr>
                  else if i = 1 then example_layer ''filt'' 1 None
                  else (example_layer ''spikes'' 1 None)
                         \<lparr>l_output_type := PyClass 1 ''TSEvent''\<rparr>),
      net_dt = Some 1, force_dt = False, net_timestep = 0, evol_order = [0, 1, 2]\<rparr>"

text \<open>
  The two-rate scenario: \<open>A\<close> (identity 0, \<open>dt = 0.1\<close>, two inputs, three outputs,
  external input) feeds \<open>B\<close> (identity 1, \<open>dt = 0.02\<close>, three inputs, one output);
  \<open>two_rate_net\<close> is the network before its time step has been derived,
  \<open>two_rate_ready\<close> the network once the time step and the evolution order are in place.
  \<open>close_rates_net\<close> holds two layers with \<open>dt = 0.1\<close> and \<open>dt = 0.1001\<close>.
\<close>

definition two_rate_net :: network where
  "two_rate_net =
     \<lparr>layerset = [0, 1],
      store = (\<lambda>i. if i = 0 then (example_layer ''A'' (1 / 10) None)
                                   \<lparr>l_size_in := 2, l_size := 3, external_input := True\<rparr>
                  else (example_layer ''B'' (1 / 50) (Some 0))\<lparr>l_size_in := 3, l_size := 1\<rparr>),
      net_dt = None, force_dt = False, net_timestep = 0, evol_order = []\<rparr>"


definition two_rate_ready :: network where
  "two_rate_ready =
     two_rate_net
       \<lparr>store := (store two_rate_net)
                   (1 := (store two_rate_net 1)\<lparr>timesteps_per_network_dt := 5\<rparr>),
        net_dt := Some (1 / 10), evol_order := [0, 1]\<rparr>"

text \<open>
  Two layer behaviours: a layer that advances its clock by the number of steps it is
  asked for, and a layer that leaves its clock where it is.
\<close>

definition counting_layer :: "unit layer_evolve" where
  "counting_layer l ts n = Inr (l\<lparr>l_timestep := l_timestep l + n\<rparr>, ())"

definition stalling_layer :: "unit layer_evolve" where
  "stalling_layer l ts n = Inr (l, ())"

text \<open>The two-rate network after two network steps.\<close>

definition two_rate_evolved :: network where
  "two_rate_evolved =
     two_rate_ready
       \<lparr>store := (store two_rate_ready)
                   (0 := (store two_rate_ready 0)\<lparr>l_timestep := 2\<rparr>,
                    1 := (store two_rate_ready 1)\<lparr>l_timestep := 10\<rparr>),
        net_timestep := 2\<rparr>"


section \<open>Properties of the decimal helpers\<close>

lemma gcd_py_zero: "gcd_py a 0 = Some a"
  by (simp add: gcd_py.simps)

lemma gcd_py_step: "b \<noteq> 0 \<Longrightarrow> gcd_py a b = gcd_py b (dec_rem a b)"
  by (subst gcd_py.simps) simp

lemma floor_rat_numeral_div:
  "\<lfloor>(numeral a / numeral b :: rat)\<rfloor> = numeral a div numeral b"
  using floor_divide_of_int_eq [where ?'a = rat, of "numeral a" "numeral b"] by simp

lemma floor_rat_one_div:
  "\<lfloor>(1 / numeral b :: rat)\<rfloor> = 1 div numeral b"
  using floor_divide_of_int_eq [where ?'a = rat, of 1 "numeral b"] by simp

lemma floor_rat_neg_numeral_div:
  "\<lfloor>(- (numeral a / numeral b) :: rat)\<rfloor> = (- numeral a) div numeral b"
  using floor_divide_of_int_eq [where ?'a = rat, of "- numeral a" "numeral b"] by simp

lemma floor_rat_neg_one_div:
  "\<lfloor>(- (1 / numeral b) :: rat)\<rfloor> = (- 1) div numeral b"
  using floor_divide_of_int_eq [where ?'a = rat, of "- 1" "numeral b"] by simp

text \<open>The rules that evaluate the decimal helpers on numerals.\<close>

lemmas eval_simps = gcd_py_zero gcd_py_step dec_rem_def trunc_rat_def np_round_def
  lcm_py_def is_multiple_def tol_rel_def tol_abs_def decimal_base_def
  floor_rat_numeral_div floor_rat_one_div floor_rat_neg_numeral_div floor_rat_neg_one_div
  ceiling_def Let_def

lemma trunc_rat_nonneg: "0 \<le> x \<Longrightarrow> trunc_rat x = \<lfloor>x\<rfloor>"
  by (simp add: trunc_rat_def)

lemma dec_rem_bounds:
  assumes "0 \<le> a" and "0 < b"
  shows "0 \<le> dec_rem a b" and "dec_rem a b < b"
proof -
  have q: "0 \<le> a / b" using assms by simp
  have r: "dec_rem a b = a - of_int \<lfloor>a / b\<rfloor> * b"
    by (simp add: dec_rem_def trunc_rat_nonneg [OF q] mult.commute)
  from floor_divide_lower [OF assms(2), of a] show "0 \<le> dec_rem a b"
    by (simp add: r)
  from floor_divide_upper [OF assms(2), of a] show "dec_rem a b < b"
    by (simp add: r algebra_simps)
qed

lemma dec_rem_grid:
  assumes "0 \<le> i" and "0 < j" and "0 < d"
  shows "dec_rem (of_int i / of_int d) (of_int j / of_int d) = of_int (i mod j) / of_int d"
proof -
  have e: "(of_int i / of_int d) / (of_int j / of_int d) = (of_int i / of_int j :: rat)"
    using assms by simp
  have q: "(0::rat) \<le> of_int i / of_int j" using assms by simp
  have f: "\<lfloor>(of_int i / of_int j :: rat)\<rfloor> = i div j"
    by (rule floor_divide_of_int_eq)
  have "dec_rem (of_int i / of_int d) (of_int j / of_int d)
          = of_int i / of_int d - of_int j / of_int d * of_int (i div j)"
    by (simp only: dec_rem_def e trunc_rat_nonneg [OF q] f)
  also have "\<dots> = (of_int i - of_int j * of_int (i div j)) / of_int d"
    by (simp add: diff_divide_distrib)
  also have "of_int i - of_int j * of_int (i div j) = (of_int (i mod j) :: rat)"
    by (simp add: minus_div_mult_eq_mod [symmetric] mult.commute)
  finally show ?thesis .
qed

lemma gcd_py_grid:
  assumes "0 < d"
  shows "0 \<le> i \<Longrightarrow> 0 \<le> j \<Longrightarrow>
         gcd_py (of_int i / of_int d) (of_int j / of_int d) = Some (of_int (gcd i j) / of_int d)"
proof (induction "nat j" arbitrary: i j rule: less_induct)
  case less
  show ?case
  proof (cases "j = 0")
    case True
    with less.prems show ?thesis by (simp add: gcd_py_zero)
  next
    case False
    with less.prems have jpos: "0 < j" by simp
    have nz: "(of_int j / of_int d :: rat) \<noteq> 0" using jpos assms by simp
    have m: "0 \<le> i mod j" "i mod j < j" using jpos by simp_all
    have "gcd_py (of_int i / of_int d) (of_int j / of_int d)
            = gcd_py (of_int j / of_int d) (of_int (i mod j) / of_int d)"
      by (simp only: gcd_py_step [OF nz] dec_rem_grid [OF less.prems(1) jpos assms])
    also have "\<dots> = Some (of_int (gcd j (i mod j)) / of_int d)"
      using less.hyps [of "i mod j" j] m jpos by simp
    also have "gcd j (i mod j) = gcd i j"
      by (rule gcd_red_int [symmetric])
    finally show ?thesis .
  qed
qed

text \<open>
  The exact recursion returns for every pair of non-negative values, and the value
  returned divides both.
\<close>

lemma gcd_py_exact_divides:
  assumes "0 \<le> a" and "0 \<le> b"
  shows "\<exists>g. gcd_py a b = Some g
             \<and> (\<exists>m n :: int. a = of_int m * g \<and> b = of_int n * g)
             \<and> (b \<noteq> 0 \<longrightarrow> 0 \<le> dec_rem a b \<and> dec_rem a b < b)"
proof -
  obtain p q where a: "quotient_of a = (p, q)" by (cases "quotient_of a")
  obtain r s where b: "quotient_of b = (r, s)" by (cases "quotient_of b")
  have q: "0 < q" and s: "0 < s"
    using quotient_of_denom_pos [OF a] quotient_of_denom_pos [OF b] by simp_all
  have av: "a = of_int p / of_int q" and bv: "b = of_int r / of_int s"
    using quotient_of_div [OF a] quotient_of_div [OF b] by simp_all
  have p: "0 \<le> p" using assms(1) q by (simp add: av zero_le_divide_iff)
  have r: "0 \<le> r" using assms(2) s by (simp add: bv zero_le_divide_iff)
  define d where "d = q * s"
  define i where "i = p * s"
  define j where "j = r * q"
  have d: "0 < d" using q s by (simp add: d_def)
  have ai: "a = of_int i / of_int d" using q s by (simp add: av i_def d_def)
  have bj: "b = of_int j / of_int d" using q s by (simp add: bv j_def d_def)
  have i: "0 \<le> i" and j: "0 \<le> j" using p r q s by (simp_all add: i_def j_def)
  define g :: rat where "g = of_int (gcd i j) / of_int d"
  have res: "gcd_py a b = Some g"
    unfolding ai bj g_def by (rule gcd_py_grid [OF d i j])
  have da: "a = of_int (i div gcd i j) * g"
  proof -
    have "i div gcd i j * gcd i j = i" by simp
    then have "(of_int i :: rat) = of_int (i div gcd i j) * of_int (gcd i j)"
      by (simp only: of_int_mult [symmetric])
    then show ?thesis by (simp add: ai g_def)
  qed
  have db: "b = of_int (j div gcd i j) * g"
  proof -
    have "j div gcd i j * gcd i j = j" by simp
    then have "(of_int j :: rat) = of_int (j div gcd i j) * of_int (gcd i j)"
      by (simp only: of_int_mult [symmetric])
    then show ?thesis by (simp add: bj g_def)
  qed
  have dec: "b \<noteq> 0 \<longrightarrow> 0 \<le> dec_rem a b \<and> dec_rem a b < b"
    using dec_rem_bounds [OF assms(1), of b] assms(2) by auto
  from res da db dec show ?thesis by blast
qed

section \<open>gcd at the precision of the decimal context\<close>






















section \<open>Evolution order\<close>

lemma find_next_layer_Inr:
  "find_next_layer st r cs = Inr x \<Longrightarrow>
     x \<in> set cs \<and> (\<forall>p. pre_layer (st x) = Some p \<longrightarrow> p \<notin> set r)"
  by (induction cs) (auto split: if_splits option.splits)

lemma find_next_layer_Inl:
  "find_next_layer st r cs = Inl e \<Longrightarrow>
     e = NetworkError ''Network: Cannot resolve evolution order of layers''
     \<and> (\<forall>c\<in>set cs. \<exists>p. pre_layer (st c) = Some p \<and> p \<in> set r)"
  by (induction cs) (auto split: if_splits option.splits)

lemma order_loop_Inl:
  "order_loop st r ord = Inl e \<Longrightarrow>
     e = NetworkError ''Network: Cannot resolve evolution order of layers''"
proof (induction st r ord rule: order_loop.induct)
  case (1 st r ord)
  show ?case
  proof (cases "find_next_layer st r r")
    case (Inl e')
    with "1.prems" find_next_layer_Inl [OF Inl] show ?thesis
      by (simp split: if_splits)
  next
    case (Inr x)
    with "1.prems" "1.IH" [OF _ Inr] show ?thesis
      by (simp split: if_splits)
  qed
qed

lemma occurs_before_Cons_hd:
  "l \<in> set xs \<Longrightarrow> l \<noteq> x \<Longrightarrow> occurs_before (x # xs) x l"
  by (simp add: occurs_before_def index_of_def)

lemma occurs_before_Cons_tl:
  "occurs_before xs p l \<Longrightarrow> p \<noteq> x \<Longrightarrow> l \<noteq> x \<Longrightarrow> occurs_before (x # xs) p l"
  by (simp add: occurs_before_def index_of_def)

lemma order_loop_Inr:
  "order_loop st r ord = Inr res \<Longrightarrow> distinct r \<Longrightarrow>
     \<exists>tl. res = ord @ tl \<and> mset tl = mset r
        \<and> (\<forall>l\<in>set r. \<forall>p\<in>set r. pre_layer (st l) = Some p \<longrightarrow> occurs_before tl p l)"
proof (induction st r ord arbitrary: res rule: order_loop.induct)
  case (1 st r ord)
  show ?case
  proof (cases "r = []")
    case True
    with "1.prems" show ?thesis by simp
  next
    case False
    show ?thesis
    proof (cases "find_next_layer st r r")
      case (Inl e)
      with "1.prems" False show ?thesis by simp
    next
      case (Inr x)
      from find_next_layer_Inr [OF Inr]
      have xr: "x \<in> set r" and xp: "\<And>p. pre_layer (st x) = Some p \<Longrightarrow> p \<notin> set r"
        by auto
      from "1.prems" False Inr
      have rec: "order_loop st (removeAll x r) (ord @ [x]) = Inr res" by simp
      have d: "distinct (removeAll x r)" using "1.prems"(2) by (simp add: distinct_removeAll)
      from "1.IH" [OF False Inr rec d]
      obtain tl' where tl: "res = (ord @ [x]) @ tl'"
        and ms: "mset tl' = mset (removeAll x r)"
        and ob: "\<forall>l\<in>set (removeAll x r). \<forall>p\<in>set (removeAll x r).
                   pre_layer (st l) = Some p \<longrightarrow> occurs_before tl' p l"
        by blast
      have st': "set tl' = set r - {x}"
        using ms by (metis set_mset_mset set_removeAll)
      have m: "mset (x # tl') = mset r"
        using ms xr "1.prems"(2)
        by (simp add: distinct_remove1_removeAll [symmetric])
      have o: "occurs_before (x # tl') p l"
        if l: "l \<in> set r" and p: "p \<in> set r" and lp: "pre_layer (st l) = Some p" for l p
      proof -
        from xp lp p have lx: "l \<noteq> x" by auto
        show ?thesis
        proof (cases "p = x")
          case True
          with lx l st' show ?thesis by (simp add: occurs_before_Cons_hd)
        next
          case False
          with lx l p lp ob have "occurs_before tl' p l" by simp
          then show ?thesis using False lx by (rule occurs_before_Cons_tl)
        qed
      qed
      from tl m o show ?thesis by auto
    qed
  qed
qed

lemma order_loop_total:
  "acyclic (pred_edges st ls) \<Longrightarrow> set r \<subseteq> set ls \<Longrightarrow> \<exists>res. order_loop st r ord = Inr res"
proof (induction st r ord rule: order_loop.induct)
  case (1 st r ord)
  show ?case
  proof (cases "r = []")
    case True
    then show ?thesis by simp
  next
    case False
    have fin: "finite (pred_edges st ls)"
      by (rule finite_subset [of _ "set ls \<times> set ls"]) (auto simp: pred_edges_def)
    from finite_acyclic_wf [OF fin "1.prems"(1)] have w: "wf (pred_edges st ls)" .
    from False obtain y where y: "y \<in> set r" by (cases r) auto
    from wfE_min [OF w y]
    obtain z where z: "z \<in> set r" and zmin: "\<And>q. (q, z) \<in> pred_edges st ls \<Longrightarrow> q \<notin> set r"
      by blast
    have "\<exists>x. find_next_layer st r r = Inr x"
    proof (cases "find_next_layer st r r")
      case (Inl e)
      from find_next_layer_Inl [OF Inl] z
      obtain p where p: "pre_layer (st z) = Some p" "p \<in> set r" by blast
      with z "1.prems"(2) have "(p, z) \<in> pred_edges st ls" by (auto simp: pred_edges_def)
      from zmin [OF this] p show ?thesis by simp
    next
      case (Inr x)
      then show ?thesis by blast
    qed
    then obtain x where x: "find_next_layer st r r = Inr x" ..
    have sub: "set (removeAll x r) \<subseteq> set ls" using "1.prems"(2) by auto
    from "1.IH" [OF False x "1.prems"(1) sub] False x show ?thesis by simp
  qed
qed

lemma occurs_before_acyclic:
  assumes "\<And>p l. (p, l) \<in> E \<Longrightarrow> occurs_before xs p l"
  shows "acyclic E"
proof -
  have "E \<subseteq> measure (index_of xs)"
    using assms by (auto simp: occurs_before_def)
  from wf_subset [OF wf_measure this] show ?thesis by (rule wf_acyclic)
qed

text \<open>
  C3. For a layer set whose predecessor relation is acyclic, \<^verbatim>\<open>_set_evolution_order\<close>
  returns a permutation of the layer set in which every layer whose predecessor is a
  member of the set occurs strictly after that predecessor. (A predecessor that is not
  in the layer set is ignored by the source and does not occur in the order.) If the
  relation has a cycle, it raises \<^verbatim>\<open>NetworkError\<close>; the function is total, so it
  returns or raises on every input.
\<close>

theorem set_evolution_order_topological:
  assumes "distinct (layerset net)"
  shows "(acyclic (pred_edges (store net) (layerset net)) \<longrightarrow>
            (\<exists>order. set_evolution_order net = Inr order
               \<and> mset order = mset (layerset net)
               \<and> (\<forall>l\<in>set (layerset net). \<forall>p\<in>set (layerset net).
                      pre_layer (store net l) = Some p \<longrightarrow> occurs_before order p l)))
       \<and> (\<not> acyclic (pred_edges (store net) (layerset net)) \<longrightarrow>
            set_evolution_order net
              = Inl (NetworkError ''Network: Cannot resolve evolution order of layers''))"
proof (intro conjI impI)
  assume a: "acyclic (pred_edges (store net) (layerset net))"
  from order_loop_total [OF a subset_refl, of "[]"]
  obtain res where res: "order_loop (store net) (layerset net) [] = Inr res" ..
  from order_loop_Inr [OF res assms] res
  show "\<exists>order. set_evolution_order net = Inr order
          \<and> mset order = mset (layerset net)
          \<and> (\<forall>l\<in>set (layerset net). \<forall>p\<in>set (layerset net).
                 pre_layer (store net l) = Some p \<longrightarrow> occurs_before order p l)"
    by (auto simp: set_evolution_order_def)
next
  assume c: "\<not> acyclic (pred_edges (store net) (layerset net))"
  show "set_evolution_order net
          = Inl (NetworkError ''Network: Cannot resolve evolution order of layers'')"
  proof (cases "order_loop (store net) (layerset net) []")
    case (Inl e)
    with order_loop_Inl [OF Inl] show ?thesis by (simp add: set_evolution_order_def)
  next
    case (Inr res)
    from order_loop_Inr [OF Inr assms]
    have "\<And>p l. (p, l) \<in> pred_edges (store net) (layerset net) \<Longrightarrow> occurs_before res p l"
      by (auto simp: pred_edges_def)
    from occurs_before_acyclic [OF this] c show ?thesis by simp
  qed
qed

theorem set_evolution_order_topological_witness:
  "distinct (layerset chain_net) \<and> acyclic (pred_edges (store chain_net) (layerset chain_net))
   \<and> (\<exists>order. set_evolution_order chain_net = Inr order
          \<and> mset order = mset (layerset chain_net)
          \<and> (\<forall>l\<in>set (layerset chain_net). \<forall>p\<in>set (layerset chain_net).
                 pre_layer (store chain_net l) = Some p \<longrightarrow> occurs_before order p l))
   \<and> distinct (layerset cycle_net)
   \<and> \<not> acyclic (pred_edges (store cycle_net) (layerset cycle_net))
   \<and> set_evolution_order cycle_net
         = Inl (NetworkError ''Network: Cannot resolve evolution order of layers'')"
proof -
  have d1: "distinct (layerset chain_net)" by (simp add: chain_net_def)
  have d2: "distinct (layerset cycle_net)"
    by (simp add: cycle_net_def set_pre_layer_def chain_net_def)
  have "pred_edges (store chain_net) (layerset chain_net) \<subseteq> measure id"
    by (auto simp: pred_edges_def chain_net_def example_layer_def split: if_splits)
  from wf_subset [OF wf_measure this]
  have a1: "acyclic (pred_edges (store chain_net) (layerset chain_net))" by (rule wf_acyclic)
  have e1: "(1, 2) \<in> pred_edges (store cycle_net) (layerset cycle_net)"
    by (simp add: pred_edges_def cycle_net_def set_pre_layer_def chain_net_def example_layer_def)
  have e2: "(2, 1) \<in> pred_edges (store cycle_net) (layerset cycle_net)"
    by (simp add: pred_edges_def cycle_net_def set_pre_layer_def chain_net_def example_layer_def)
  from e1 e2 have "(1, 1) \<in> (pred_edges (store cycle_net) (layerset cycle_net))\<^sup>+"
    by (rule trancl_into_trancl2 [OF _ r_into_trancl])
  then have a2: "\<not> acyclic (pred_edges (store cycle_net) (layerset cycle_net))"
    by (auto simp: acyclic_def)
  from set_evolution_order_topological [OF d1] set_evolution_order_topological [OF d2]
       d1 d2 a1 a2
  show ?thesis by blast
qed

section \<open>connect\<close>

lemma sublist_skip: "sublist xs ys \<Longrightarrow> sublist xs (zs @ ys)"
  by (auto simp: sublist_def) (metis append_assoc)

lemma sublist_dimension_message:
  "sublist (l_name pre) (dimension_message pre post)"
  "sublist (l_name post) (dimension_message pre post)"
  "sublist (str_int (l_size pre)) (dimension_message pre post)"
  "sublist (str_int (l_size_in post)) (dimension_message pre post)"
  unfolding dimension_message_def
  by (blast intro: sublist_skip sublist_append_rightI)+

lemma sublist_class_message:
  "sublist (l_name pre) (class_message pre post)"
  "sublist (l_name post) (class_message pre post)"
  "sublist (cls_name (l_output_type pre)) (class_message pre post)"
  "sublist (cls_name (l_input_type post)) (class_message pre post)"
  unfolding class_message_def
  by (blast intro: sublist_skip sublist_append_rightI)+

text \<open>
  C8. When the size of the source differs from the input size of the target, or their
  output and input classes differ, \<^verbatim>\<open>connect\<close> raises \<^verbatim>\<open>NetworkError\<close> with a message
  that contains the names of both layers and the two attributes of the check that
  failed (the sizes, or else the class names), and the network it leaves is the network
  it was given: no layer, in particular not the predecessor of the target, has changed.
\<close>

theorem connect_mismatch_raises:
  assumes "l_size (store net pre) \<noteq> l_size_in (store net post)
           \<or> l_output_type (store net pre) \<noteq> l_input_type (store net post)"
  shows "\<exists>msg. connect net pre post = (Some (NetworkError msg), net)
           \<and> sublist (l_name (store net pre)) msg
           \<and> sublist (l_name (store net post)) msg
           \<and> (if l_size (store net pre) \<noteq> l_size_in (store net post)
               then sublist (str_int (l_size (store net pre))) msg
                    \<and> sublist (str_int (l_size_in (store net post))) msg
               else sublist (cls_name (l_output_type (store net pre))) msg
                    \<and> sublist (cls_name (l_input_type (store net post))) msg)"
proof (cases "l_size (store net pre) \<noteq> l_size_in (store net post)")
  case True
  then have "connect net pre post
               = (Some (NetworkError (dimension_message (store net pre) (store net post))), net)"
    by (simp add: connect_def)
  with True sublist_dimension_message [where pre = "store net pre" and post = "store net post"]
  show ?thesis by simp
next
  case False
  with assms have "connect net pre post
               = (Some (NetworkError (class_message (store net pre) (store net post))), net)"
    by (simp add: connect_def)
  with False sublist_class_message [where pre = "store net pre" and post = "store net post"]
  show ?thesis by simp
qed

theorem connect_mismatch_raises_witness:
  "l_size (store mixed_net 0) \<noteq> l_size_in (store mixed_net 1)
   \<and> connect mixed_net 0 1
       = (Some (NetworkError
            ''Network: Dimensions of layers `wide` (size=3) and `filt` (size_in=1) do not match''),
          mixed_net)
   \<and> l_size (store mixed_net 2) = l_size_in (store mixed_net 1)
   \<and> l_output_type (store mixed_net 2) \<noteq> l_input_type (store mixed_net 1)
   \<and> (\<exists>msg. connect mixed_net 2 1 = (Some (NetworkError msg), mixed_net)
          \<and> sublist ''spikes'' msg \<and> sublist ''filt'' msg
          \<and> sublist ''TSEvent'' msg \<and> sublist ''TSContinuous'' msg)"
proof -
  have h1: "l_size (store mixed_net 0) \<noteq> l_size_in (store mixed_net 1)
              \<or> l_output_type (store mixed_net 0) \<noteq> l_input_type (store mixed_net 1)"
    by (simp add: mixed_net_def example_layer_def)
  have h2: "l_size (store mixed_net 2) \<noteq> l_size_in (store mixed_net 1)
              \<or> l_output_type (store mixed_net 2) \<noteq> l_input_type (store mixed_net 1)"
    by (simp add: mixed_net_def example_layer_def)
  from connect_mismatch_raises [OF h1]
  obtain msg where m: "connect mixed_net 0 1 = (Some (NetworkError msg), mixed_net)" by blast
  have "connect mixed_net 0 1
          = (Some (NetworkError (dimension_message (store mixed_net 0) (store mixed_net 1))),
             mixed_net)"
    using m by (simp add: connect_def mixed_net_def example_layer_def)
  moreover have "dimension_message (store mixed_net 0) (store mixed_net 1)
          = ''Network: Dimensions of layers `wide` (size=3) and `filt` (size_in=1) do not match''"
    by (simp add: dimension_message_def mixed_net_def example_layer_def str_int_def)
  ultimately have c1: "connect mixed_net 0 1
       = (Some (NetworkError
            ''Network: Dimensions of layers `wide` (size=3) and `filt` (size_in=1) do not match''),
          mixed_net)"
    by simp
  have n: "l_name (store mixed_net 2) = ''spikes''" "l_name (store mixed_net 1) = ''filt''"
      "cls_name (l_output_type (store mixed_net 2)) = ''TSEvent''"
      "cls_name (l_input_type (store mixed_net 1)) = ''TSContinuous''"
      "l_size (store mixed_net 2) = l_size_in (store mixed_net 1)"
    by (simp_all add: mixed_net_def example_layer_def)
  from connect_mismatch_raises [OF h2]
  have c2: "\<exists>msg. connect mixed_net 2 1 = (Some (NetworkError msg), mixed_net)
          \<and> sublist ''spikes'' msg \<and> sublist ''filt'' msg
          \<and> sublist ''TSEvent'' msg \<and> sublist ''TSContinuous'' msg"
    unfolding n by simp
  have g: "l_size (store mixed_net 0) \<noteq> l_size_in (store mixed_net 1)"
      "l_output_type (store mixed_net 2) \<noteq> l_input_type (store mixed_net 1)"
    by (simp_all add: mixed_net_def example_layer_def)
  from g c1 n(5) c2 show ?thesis by blast
qed

text \<open>
  When the new edge closes a cycle, the handler of \<^verbatim>\<open>connect\<close> assigns \<^verbatim>\<open>None\<close> to the
  predecessor of the target, whatever it was before the call.
\<close>

lemma connect_cycle_rollback:
  assumes "l_size (store net pre) = l_size_in (store net post)"
    and "l_output_type (store net pre) = l_input_type (store net post)"
    and "set_evolution_order (set_pre_layer net post (Some pre)) = Inl e"
  shows "connect net pre post = (Some e, set_pre_layer net post None)"
proof -
  from assms(3) order_loop_Inl
  have e: "e = NetworkError ''Network: Cannot resolve evolution order of layers''"
    by (simp add: set_evolution_order_def)
  have "set_pre_layer (set_pre_layer net post (Some pre)) post None = set_pre_layer net post None"
    by (simp add: set_pre_layer_def)
  with assms e show ?thesis by (simp add: connect_def Let_def)
qed

text \<open>
  C4. In the chain \<open>A \<rightarrow> B \<rightarrow> C\<close>, connecting \<open>C\<close> to \<open>B\<close> would close a cycle.
  \<^verbatim>\<open>connect\<close> raises \<^verbatim>\<open>NetworkError\<close>, and afterwards \<open>B\<close> has no predecessor, where it
  had \<open>A\<close> before the call: the predecessor relation is not restored.
\<close>

theorem connect_cycle_drops_previous_input:
  "connect chain_net 2 1
     = (Some (NetworkError ''Network: Cannot resolve evolution order of layers''),
        set_pre_layer chain_net 1 None)
   \<and> pre_layer (store chain_net 1) = Some 0
   \<and> pre_layer (store (snd (connect chain_net 2 1)) 1) = None"
proof -
  have c: "set_evolution_order (set_pre_layer chain_net 1 (Some 2))
             = Inl (NetworkError ''Network: Cannot resolve evolution order of layers'')"
    by (simp add: set_evolution_order_def set_pre_layer_def chain_net_def example_layer_def)
  have "connect chain_net 2 1
     = (Some (NetworkError ''Network: Cannot resolve evolution order of layers''),
        set_pre_layer chain_net 1 None)"
    by (rule connect_cycle_rollback [OF _ _ c]) (simp_all add: chain_net_def example_layer_def)
  then show ?thesis
    by (simp add: set_pre_layer_def chain_net_def example_layer_def)
qed

section \<open>\_set\_dt\<close>









lemma fold_max_Max: "fold max rest (d0 :: rat) = Max (set (d0 # rest))"
  by (simp only: Max.set_eq_fold)














section \<open>remove\_layer\<close>

text \<open>
  \<^verbatim>\<open>remove_layer\<close> assigns the return value of \<^verbatim>\<open>_set_dt\<close> to \<^verbatim>\<open>_dt\<close>, and that value is
  always \<^verbatim>\<open>None\<close>.
\<close>

lemma set_dt_returns_None: "set_dt net max_factor = (Inr v, net') \<Longrightarrow> v = None"
  by (auto simp: set_dt_def Let_def store_timesteps_def
           split: if_splits option.splits list.splits sum.splits bool.splits prod.splits)

lemma remove_layer_discards_dt:
  "remove_layer net del_layer = (None, net') \<Longrightarrow> net_dt net' = None"
  by (auto simp: remove_layer_def Let_def dest: set_dt_returns_None
           split: if_splits prod.splits sum.splits)

text \<open>
  C5. Removing \<open>B\<close> from the two-rate network returns normally with the layer set and
  the evolution order recomputed to \<open>[A]\<close>, but the global time step, \<open>0.1\<close> before
  the call, is \<^verbatim>\<open>None\<close> afterwards; recomputing it over the remaining layer would give
  \<open>0.1\<close>.
\<close>

theorem remove_layer_leaves_no_dt:
  "fst (remove_layer two_rate_ready 1) = None
   \<and> layerset (snd (remove_layer two_rate_ready 1)) = [0]
   \<and> evol_order (snd (remove_layer two_rate_ready 1)) = [0]
   \<and> net_dt two_rate_ready = Some (1 / 10)
   \<and> net_dt (snd (remove_layer two_rate_ready 1)) = None
   \<and> net_dt (snd (set_dt (snd (remove_layer two_rate_ready 1)) 100)) = Some (1 / 10)"
  by (simp add: remove_layer_def set_dt_def store_timesteps_def set_evolution_order_def
        two_rate_ready_def two_rate_net_def example_layer_def eval_simps)

section \<open>evolve and the synchrony check\<close>

lemma check_sync_Inr: "check_sync net = Inr b \<longleftrightarrow> b \<and> (\<forall>i\<in>set (evol_order net). layer_in_sync net i)"
  by (auto simp: check_sync_def list_all_iff)

lemma check_sync_Inl:
  "(\<exists>i\<in>set (evol_order net). \<not> layer_in_sync net i) \<Longrightarrow>
     check_sync net = Inl (NetworkError ''Network: Not all layers are in sync with the network.'')"
  by (auto simp: check_sync_def list_all_iff)

text \<open>
  C1. Whenever \<^verbatim>\<open>evolve\<close> returns, every layer of the evolution order satisfies
  \<open>lyr._timestep = network._timestep * lyr._timesteps_per_network_dt\<close> in the network it
  leaves. If the layers have been evolved and one of them violates the equality against
  the advanced network clock, \<^verbatim>\<open>evolve\<close> raises \<^verbatim>\<open>NetworkError\<close>, and the network it leaves
  holds the layers as they were evolved: the mismatch is not corrected.
\<close>

theorem evolve_synchrony:
  "(\<forall>r net' calls. evolve lev net ts_input num_timesteps = (Inr r, net', calls) \<longrightarrow>
       (\<forall>lyr\<in>set (evol_order net').
          l_timestep (store net' lyr)
            = net_timestep net' * timesteps_per_network_dt (store net' lyr)))
   \<and> (\<forall>st signal_dict calls.
        check_sync net = Inr True
        \<and> evolve_layers lev ts_input num_timesteps (evol_order net)
             (store net, [''external'' \<mapsto> ts_input], []) = (None, st, signal_dict, calls)
        \<and> (\<exists>lyr\<in>set (evol_order net).
              l_timestep (st lyr)
                \<noteq> (net_timestep net + num_timesteps) * timesteps_per_network_dt (st lyr))
        \<longrightarrow> evolve lev net ts_input num_timesteps
              = (Inl (NetworkError ''Network: Not all layers are in sync with the network.''),
                 net\<lparr>store := st, net_timestep := net_timestep net + num_timesteps\<rparr>, calls))"
proof (intro conjI allI impI)
  fix r net' calls
  assume ok: "evolve lev net ts_input num_timesteps = (Inr r, net', calls)"
  then have "check_sync net' = Inr True"
    by (auto simp: evolve_def Let_def check_sync_Inr split: sum.splits prod.splits option.splits)
  then show "\<forall>lyr\<in>set (evol_order net').
          l_timestep (store net' lyr)
            = net_timestep net' * timesteps_per_network_dt (store net' lyr)"
    by (simp add: check_sync_Inr layer_in_sync_def)
next
  fix st signal_dict calls
  assume h: "check_sync net = Inr True
        \<and> evolve_layers lev ts_input num_timesteps (evol_order net)
             (store net, [''external'' \<mapsto> ts_input], []) = (None, st, signal_dict, calls)
        \<and> (\<exists>lyr\<in>set (evol_order net).
              l_timestep (st lyr)
                \<noteq> (net_timestep net + num_timesteps) * timesteps_per_network_dt (st lyr))"
  let ?net1 = "net\<lparr>store := st, net_timestep := net_timestep net + num_timesteps\<rparr>"
  from h have "\<exists>i\<in>set (evol_order ?net1). \<not> layer_in_sync ?net1 i"
    by (simp add: layer_in_sync_def)
  from check_sync_Inl [OF this] h
  show "evolve lev net ts_input num_timesteps
              = (Inl (NetworkError ''Network: Not all layers are in sync with the network.''),
                 ?net1, calls)"
    by (simp add: evolve_def Let_def)
qed

theorem evolve_synchrony_witness:
  "(\<exists>r net' calls. evolve counting_layer two_rate_ready None 2 = (Inr r, net', calls)
       \<and> (\<forall>lyr\<in>set (evol_order net').
             l_timestep (store net' lyr)
               = net_timestep net' * timesteps_per_network_dt (store net' lyr)))
   \<and> (\<exists>st signal_dict calls.
         check_sync two_rate_ready = Inr True
         \<and> evolve_layers stalling_layer None 2 (evol_order two_rate_ready)
              (store two_rate_ready, [''external'' \<mapsto> None], []) = (None, st, signal_dict, calls)
         \<and> (\<exists>lyr\<in>set (evol_order two_rate_ready).
               l_timestep (st lyr)
                 \<noteq> (net_timestep two_rate_ready + 2) * timesteps_per_network_dt (st lyr))
         \<and> evolve stalling_layer two_rate_ready None 2
               = (Inl (NetworkError ''Network: Not all layers are in sync with the network.''),
                  two_rate_ready\<lparr>store := st, net_timestep := net_timestep two_rate_ready + 2\<rparr>,
                  calls))"
proof -
  obtain x net' calls where e: "evolve counting_layer two_rate_ready None 2 = (x, net', calls)"
    by (cases "evolve counting_layer two_rate_ready None 2")
  have "\<exists>r. fst (evolve counting_layer two_rate_ready None 2) = Inr r"
    by (simp add: evolve_def check_sync_def layer_in_sync_def counting_layer_def
          two_rate_ready_def two_rate_net_def example_layer_def)
  with e obtain r where "evolve counting_layer two_rate_ready None 2 = (Inr r, net', calls)"
    by auto
  with evolve_synchrony [of counting_layer two_rate_ready None 2]
  have p1: "\<exists>r net' calls. evolve counting_layer two_rate_ready None 2 = (Inr r, net', calls)
       \<and> (\<forall>lyr\<in>set (evol_order net').
             l_timestep (store net' lyr)
               = net_timestep net' * timesteps_per_network_dt (store net' lyr))"
    by blast
  have c: "check_sync two_rate_ready = Inr True"
    by (simp add: check_sync_def layer_in_sync_def two_rate_ready_def two_rate_net_def example_layer_def)
  obtain y st signal_dict calls' where
    l: "evolve_layers stalling_layer None 2 (evol_order two_rate_ready)
              (store two_rate_ready, [''external'' \<mapsto> None], []) = (y, st, signal_dict, calls')"
    by (cases "evolve_layers stalling_layer None 2 (evol_order two_rate_ready)
              (store two_rate_ready, [''external'' \<mapsto> None], [])")
  have "fst (evolve_layers stalling_layer None 2 (evol_order two_rate_ready)
              (store two_rate_ready, [''external'' \<mapsto> None], [])) = None"
    and "l_timestep (fst (snd (evolve_layers stalling_layer None 2 (evol_order two_rate_ready)
              (store two_rate_ready, [''external'' \<mapsto> None], []))) 0) = 0"
    and "timesteps_per_network_dt (fst (snd (evolve_layers stalling_layer None 2
              (evol_order two_rate_ready)
              (store two_rate_ready, [''external'' \<mapsto> None], []))) 0) = 1"
    by (simp_all add: stalling_layer_def two_rate_ready_def two_rate_net_def example_layer_def)
  with l have y: "y = None" and v: "l_timestep (st 0) = 0" "timesteps_per_network_dt (st 0) = 1"
    by simp_all
  have m: "0 \<in> set (evol_order two_rate_ready)" "net_timestep two_rate_ready = 0"
    by (simp_all add: two_rate_ready_def two_rate_net_def)
  from v m have b: "\<exists>lyr\<in>set (evol_order two_rate_ready).
               l_timestep (st lyr)
                 \<noteq> (net_timestep two_rate_ready + 2) * timesteps_per_network_dt (st lyr)"
    by (intro bexI [of _ 0]) simp_all
  from evolve_synchrony [of stalling_layer two_rate_ready None 2] c l y b
  have "evolve stalling_layer two_rate_ready None 2
               = (Inl (NetworkError ''Network: Not all layers are in sync with the network.''),
                  two_rate_ready\<lparr>store := st, net_timestep := net_timestep two_rate_ready + 2\<rparr>,
                  calls')"
    by blast
  with c l y b p1 show ?thesis by blast
qed

section \<open>The two-rate scenario\<close>

lemma two_orders:
  assumes "distinct ls" and "set ls = {0, 1 :: nat}"
  shows "ls = [0, 1] \<or> ls = [1, 0]"
proof -
  have "length ls = card (set ls)" using assms(1) by (simp add: distinct_card)
  also have "\<dots> = 2" by (simp add: assms(2))
  finally have n: "length ls = Suc (Suc 0)" by simp
  then obtain a xs where a: "ls = a # xs" "length xs = Suc 0"
    by (cases ls) auto
  then obtain b where b: "xs = [b]"
    by (cases xs) auto
  from assms a b have "a \<noteq> b" and "{a, b} = {0, 1}" by simp_all
  then have "(a = 0 \<and> b = 1) \<or> (a = 1 \<and> b = 0)"
    by (simp add: doubleton_eq_iff)
  with a b show ?thesis by simp
qed

lemma set_dt_two_rate:
  "set_dt two_rate_net 100 = (Inr None, two_rate_ready\<lparr>evol_order := []\<rparr>)"
  by (simp add: set_dt_def store_timesteps_def two_rate_net_def two_rate_ready_def
        example_layer_def eval_simps fun_eq_iff)

lemma set_dt_two_rate_rev:
  "set_dt (two_rate_net\<lparr>layerset := [1, 0]\<rparr>) 100
     = (Inr None, two_rate_ready\<lparr>layerset := [1, 0], evol_order := []\<rparr>)"
  by (simp add: set_dt_def store_timesteps_def two_rate_net_def two_rate_ready_def
        example_layer_def eval_simps fun_eq_iff)

lemma order_two_rate:
  "set_evolution_order (two_rate_ready\<lparr>evol_order := []\<rparr>) = Inr [0, 1]"
  "set_evolution_order (two_rate_ready\<lparr>layerset := [1, 0], evol_order := []\<rparr>) = Inr [0, 1]"
  by (simp_all add: set_evolution_order_def two_rate_ready_def two_rate_net_def example_layer_def)

text \<open>
  C6. For \<open>A\<close> (\<open>dt = 0.1\<close>, external input) connected to \<open>B\<close> (\<open>dt = 0.02\<close>), in
  whichever order the layer set hands out the two layers: \<^verbatim>\<open>_set_dt\<close> derives the global
  step \<open>0.1\<close> with one step of \<open>A\<close> and five steps of \<open>B\<close> per network step, and the
  evolution order is \<open>[A, B]\<close>. \<^verbatim>\<open>evolve(num_timesteps=2)\<close> calls \<open>A\<close> for 2 steps and
  \<open>B\<close>, on the output of \<open>A\<close>, for 10 steps; when \<open>A\<close> then reports clock 2 and \<open>B\<close>
  clock 10, the network clock has advanced by 2 and the synchrony check passes.
\<close>

theorem two_rate_scenario:
  assumes "distinct ls" and "set ls = {0, 1}"
    and "lev (store two_rate_ready 0) ts_input 2
             = Inr ((store two_rate_ready 0)\<lparr>l_timestep := 2\<rparr>, out_A)"
    and "lev (store two_rate_ready 1) (Some out_A) 10
             = Inr ((store two_rate_ready 1)\<lparr>l_timestep := 10\<rparr>, out_B)"
  shows "set_dt (two_rate_net\<lparr>layerset := ls\<rparr>) 100
           = (Inr None, two_rate_ready\<lparr>layerset := ls, evol_order := []\<rparr>)
     \<and> set_evolution_order (two_rate_ready\<lparr>layerset := ls, evol_order := []\<rparr>) = Inr [0, 1]
     \<and> evol_order two_rate_ready = [0, 1]
     \<and> net_dt two_rate_ready = Some (1 / 10)
     \<and> timesteps_per_network_dt (store two_rate_ready 0) = 1
     \<and> timesteps_per_network_dt (store two_rate_ready 1) = 5
     \<and> (\<exists>signal_dict net'.
           evolve lev (two_rate_ready\<lparr>layerset := ls\<rparr>) ts_input 2
             = (Inr signal_dict, net', [(0, 2), (1, 10)])
           \<and> net_timestep net' = net_timestep two_rate_ready + 2
           \<and> l_timestep (store net' 0) = 2 \<and> l_timestep (store net' 1) = 10
           \<and> check_sync net' = Inr True)"
proof -
  let ?net = "two_rate_ready\<lparr>layerset := ls\<rparr>"
  have n0: "two_rate_net\<lparr>layerset := [0, 1]\<rparr> = two_rate_net"
      "two_rate_ready\<lparr>layerset := [0, 1], evol_order := []\<rparr> = two_rate_ready\<lparr>evol_order := []\<rparr>"
    by (simp_all add: two_rate_ready_def two_rate_net_def)
  have "set_dt (two_rate_net\<lparr>layerset := ls\<rparr>) 100
           = (Inr None, two_rate_ready\<lparr>layerset := ls, evol_order := []\<rparr>)
        \<and> set_evolution_order (two_rate_ready\<lparr>layerset := ls, evol_order := []\<rparr>) = Inr [0, 1]"
  proof (rule disjE [OF two_orders [OF assms(1,2)]])
    assume "ls = [0, 1]"
    then show ?thesis
      using set_dt_two_rate order_two_rate(1) by (simp only: n0 simp_thms)
  next
    assume "ls = [1, 0]"
    then show ?thesis
      using set_dt_two_rate_rev order_two_rate(2) by (simp only: simp_thms)
  qed
  then have s: "set_dt (two_rate_net\<lparr>layerset := ls\<rparr>) 100
           = (Inr None, two_rate_ready\<lparr>layerset := ls, evol_order := []\<rparr>)"
    and o: "set_evolution_order (two_rate_ready\<lparr>layerset := ls, evol_order := []\<rparr>) = Inr [0, 1]"
    by (simp_all only: simp_thms)
  have d: "net_dt two_rate_ready = Some (1 / 10)"
      "timesteps_per_network_dt (store two_rate_ready 0) = 1"
      "timesteps_per_network_dt (store two_rate_ready 1) = 5"
    by (simp_all add: two_rate_ready_def two_rate_net_def example_layer_def)
  have f: "external_input (store two_rate_ready 0)" "\<not> external_input (store two_rate_ready 1)"
      "pre_layer (store two_rate_ready 1) = Some 0" "evol_order two_rate_ready = [0, 1]"
      "l_name (store two_rate_ready 0) = ''A''" "l_name (store two_rate_ready 1) = ''B''"
      "net_timestep two_rate_ready = 0"
    by (simp_all add: two_rate_ready_def two_rate_net_def example_layer_def)
  have c: "check_sync ?net = Inr True"
    by (simp add: check_sync_def layer_in_sync_def two_rate_ready_def two_rate_net_def
          example_layer_def)
  let ?A = "(store two_rate_ready 0)\<lparr>l_timestep := 2\<rparr>"
  let ?B = "(store two_rate_ready 1)\<lparr>l_timestep := 10\<rparr>"
  let ?st = "(store two_rate_ready)(0 := ?A, 1 := ?B)"
  let ?sd = "[''external'' \<mapsto> ts_input, ''A'' \<mapsto> Some out_A, ''B'' \<mapsto> Some out_B]"
  have l: "evolve_layers lev ts_input 2 (evol_order ?net)
             (store ?net, [''external'' \<mapsto> ts_input], [])
           = (None, ?st, ?sd, [(0, 2), (1, 10)])"
    using assms(3,4) f d by simp
  let ?net' = "?net\<lparr>store := ?st, net_timestep := net_timestep ?net + 2\<rparr>"
  have c': "check_sync ?net' = Inr True"
    using f d by (simp add: check_sync_def layer_in_sync_def)
  have "evolve lev ?net ts_input 2 = (Inr ?sd, ?net', [(0, 2), (1, 10)])"
    using c l c' by (simp add: evolve_def Let_def)
  moreover have "net_timestep ?net' = net_timestep two_rate_ready + 2"
    "l_timestep (store ?net' 0) = 2" "l_timestep (store ?net' 1) = 10"
    by simp_all
  ultimately have "\<exists>signal_dict net'.
           evolve lev ?net ts_input 2 = (Inr signal_dict, net', [(0, 2), (1, 10)])
           \<and> net_timestep net' = net_timestep two_rate_ready + 2
           \<and> l_timestep (store net' 0) = 2 \<and> l_timestep (store net' 1) = 10
           \<and> check_sync net' = Inr True"
    using c' by (intro exI [of _ ?sd] exI [of _ ?net']) (simp only: simp_thms)
  with s o d f(4) show ?thesis by (simp only: simp_thms)
qed

theorem two_rate_scenario_witness:
  "distinct [1, 0 :: nat] \<and> set [1, 0 :: nat] = {0, 1}
   \<and> counting_layer (store two_rate_ready 0) None 2
     = Inr ((store two_rate_ready 0)\<lparr>l_timestep := 2\<rparr>, ())
   \<and> counting_layer (store two_rate_ready 1) (Some ()) 10
     = Inr ((store two_rate_ready 1)\<lparr>l_timestep := 10\<rparr>, ())
   \<and> set_dt (two_rate_net\<lparr>layerset := [1, 0]\<rparr>) 100
           = (Inr None, two_rate_ready\<lparr>layerset := [1, 0], evol_order := []\<rparr>)
   \<and> set_evolution_order (two_rate_ready\<lparr>layerset := [1, 0], evol_order := []\<rparr>) = Inr [0, 1]
   \<and> (\<exists>signal_dict net'.
         evolve counting_layer (two_rate_ready\<lparr>layerset := [1, 0]\<rparr>) None 2
           = (Inr signal_dict, net', [(0, 2), (1, 10)])
         \<and> net_timestep net' = net_timestep two_rate_ready + 2
         \<and> l_timestep (store net' 0) = 2 \<and> l_timestep (store net' 1) = 10
         \<and> check_sync net' = Inr True)"
proof -
  have a: "counting_layer (store two_rate_ready 0) None 2
     = Inr ((store two_rate_ready 0)\<lparr>l_timestep := 2\<rparr>, ())"
    by (simp add: counting_layer_def two_rate_ready_def two_rate_net_def example_layer_def)
  have b: "counting_layer (store two_rate_ready 1) (Some ()) 10
     = Inr ((store two_rate_ready 1)\<lparr>l_timestep := 10\<rparr>, ())"
    by (simp add: counting_layer_def two_rate_ready_def two_rate_net_def example_layer_def)
  have d: "distinct [1, 0 :: nat]" and e: "set [1, 0 :: nat] = {0, 1}" by auto
  from two_rate_scenario [OF d e a b] a b d e show ?thesis by (simp only: simp_thms)
qed

section \<open>reset\_all\<close>

lemma fold_reset_member:
  "lyr \<in> set ls \<Longrightarrow>
     \<exists>l. fold (\<lambda>lyr st. st(lyr := lreset lyr (st lyr))) ls st lyr = lreset lyr l"
proof (induction ls arbitrary: st rule: rev_induct)
  case Nil
  then show ?case by simp
next
  case (snoc i ls)
  show ?case
  proof (cases "lyr = i")
    case True
    then show ?thesis by auto
  next
    case False
    with snoc.prems have "lyr \<in> set ls" by simp
    from snoc.IH [OF this, of st] False show ?thesis by simp
  qed
qed

lemma fold_reset_idem:
  assumes "\<forall>lyr\<in>set ls. \<forall>l. lreset lyr (lreset lyr l) = lreset lyr l"
  shows "fold (\<lambda>lyr st. st(lyr := lreset lyr (st lyr))) ls st
           = (\<lambda>j. if j \<in> set ls then lreset j (st j) else st j)"
  using assms
proof (induction ls arbitrary: st)
  case Nil
  then show ?case by simp
next
  case (Cons i ls)
  from Cons.prems have h: "\<forall>lyr\<in>set ls. \<forall>l. lreset lyr (lreset lyr l) = lreset lyr l"
    and i: "\<And>l. lreset i (lreset i l) = lreset i l"
    by simp_all
  show ?case
    by (simp only: fold_simps Cons.IH [OF h]) (auto simp: fun_eq_iff i)
qed

text \<open>
  C9. Let the \<^verbatim>\<open>reset_all\<close> of every member layer set the clock of the layer to zero.
  Then after one \<^verbatim>\<open>reset_all\<close> of the network, and after two in succession, the network
  clock is 0 and every member layer reports \<open>t = 0\<close>. If moreover the \<^verbatim>\<open>reset_all\<close> of
  every member layer is idempotent, resetting the network twice leaves the very network
  that resetting it once leaves.
\<close>

theorem reset_all_idempotent:
  assumes "\<forall>lyr\<in>set (layerset net). \<forall>l. l_timestep (lreset lyr l) = 0"
  shows "net_timestep (reset_all lreset net) = 0
     \<and> (\<forall>lyr\<in>set (layerset net). layer_t (store (reset_all lreset net) lyr) = 0)
     \<and> net_timestep (reset_all lreset (reset_all lreset net)) = 0
     \<and> (\<forall>lyr\<in>set (layerset net).
           layer_t (store (reset_all lreset (reset_all lreset net)) lyr) = 0)
     \<and> ((\<forall>lyr\<in>set (layerset net). \<forall>l. lreset lyr (lreset lyr l) = lreset lyr l)
          \<longrightarrow> reset_all lreset (reset_all lreset net) = reset_all lreset net)"
proof -
  have ls: "layerset (reset_all lreset n) = layerset n" for n
    by (simp add: reset_all_def)
  have t: "net_timestep (reset_all lreset n) = 0" for n
    by (simp add: reset_all_def)
  have z: "\<forall>lyr\<in>set (layerset n). layer_t (store (reset_all lreset n) lyr) = 0"
    if "\<forall>lyr\<in>set (layerset n). \<forall>l. l_timestep (lreset lyr l) = 0" for n
  proof
    fix lyr assume m: "lyr \<in> set (layerset n)"
    from fold_reset_member [OF m, of lreset "store n"]
    obtain l where "store (reset_all lreset n) lyr = lreset lyr l"
      by (auto simp: reset_all_def)
    with that m show "layer_t (store (reset_all lreset n) lyr) = 0"
      by (simp add: layer_t_def)
  qed
  have z1: "\<forall>lyr\<in>set (layerset net). layer_t (store (reset_all lreset net) lyr) = 0"
    using z [OF assms] .
  have z2: "\<forall>lyr\<in>set (layerset net).
           layer_t (store (reset_all lreset (reset_all lreset net)) lyr) = 0"
    using z [of "reset_all lreset net"] assms by (simp add: ls)
  have i: "reset_all lreset (reset_all lreset net) = reset_all lreset net"
    if idem: "\<forall>lyr\<in>set (layerset net). \<forall>l. lreset lyr (lreset lyr l) = lreset lyr l"
  proof -
    have s: "store (reset_all lreset net)
               = (\<lambda>j. if j \<in> set (layerset net) then lreset j (store net j) else store net j)"
      by (simp add: reset_all_def fold_reset_idem [OF idem])
    have "store (reset_all lreset (reset_all lreset net)) = store (reset_all lreset net)"
      using idem
      by (simp add: reset_all_def [of lreset "reset_all lreset net"] ls fold_reset_idem [OF idem] s
            fun_eq_iff)
    then show ?thesis
      by (simp add: reset_all_def [of lreset "reset_all lreset net"]) (simp add: reset_all_def)
  qed
  from t z1 z2 i show ?thesis by blast
qed

theorem reset_all_idempotent_witness:
  "net_timestep two_rate_evolved = 2
   \<and> layer_t (store two_rate_evolved 0) = 1 / 5
   \<and> layer_t (store two_rate_evolved 1) = 1 / 5
   \<and> net_timestep (reset_all (\<lambda>lyr. butter_mel_reset_all) two_rate_evolved) = 0
   \<and> layer_t (store (reset_all (\<lambda>lyr. butter_mel_reset_all) two_rate_evolved) 0) = 0
   \<and> layer_t (store (reset_all (\<lambda>lyr. butter_mel_reset_all) two_rate_evolved) 1) = 0
   \<and> reset_all (\<lambda>lyr. butter_mel_reset_all)
         (reset_all (\<lambda>lyr. butter_mel_reset_all) two_rate_evolved)
       = reset_all (\<lambda>lyr. butter_mel_reset_all) two_rate_evolved"
proof -
  have a: "\<forall>lyr\<in>set (layerset two_rate_evolved). \<forall>l. l_timestep (butter_mel_reset_all l) = 0"
    by (simp add: butter_mel_reset_all_def)
  have b: "\<forall>lyr\<in>set (layerset two_rate_evolved).
             \<forall>l. butter_mel_reset_all (butter_mel_reset_all l) = butter_mel_reset_all l"
    by (simp add: butter_mel_reset_all_def)
  have m: "0 \<in> set (layerset two_rate_evolved)" "1 \<in> set (layerset two_rate_evolved)"
    by (simp_all add: two_rate_evolved_def two_rate_ready_def two_rate_net_def)
  have c: "net_timestep two_rate_evolved = 2"
      "layer_t (store two_rate_evolved 0) = 1 / 5"
      "layer_t (store two_rate_evolved 1) = 1 / 5"
    by (simp_all add: two_rate_evolved_def two_rate_ready_def two_rate_net_def
          example_layer_def layer_t_def)
  from reset_all_idempotent [of two_rate_evolved "\<lambda>lyr. butter_mel_reset_all", OF a] b m c
  show ?thesis by blast
qed

section \<open>train\<close>

text \<open>
  The batches add up to \<open>num_timesteps\<close> for a single batch, for a uniform batch size
  and for explicit sizes whose sum does not exceed \<open>num_timesteps\<close>; the callback is
  called once per batch, first on the first and last on the last.
\<close>

lemma uniform_batches_sum:
  "uniform_batches n m = Inr v \<Longrightarrow> sum_list v = n"
  by (auto simp: uniform_batches_def Let_def split: if_splits)

lemma train_batches_sum:
  assumes "train_batches n nums_ts_batch = Inr v"
    and "case nums_ts_batch of None \<Rightarrow> True
         | Some nums \<Rightarrow> length nums \<noteq> 1 \<longrightarrow> sum_list nums \<le> n"
  shows "sum_list v = n"
proof (cases nums_ts_batch)
  case None
  with assms show ?thesis by (auto simp: train_batches_def)
next
  case (Some nums)
  show ?thesis
  proof (cases "length nums = 1")
    case True
    with assms(1) Some obtain w where w: "uniform_batches n (hd nums) = Inr w"
      by (cases "uniform_batches n (hd nums)") (auto simp: train_batches_def)
    from uniform_batches_sum [OF w] w assms(1) Some True show ?thesis
      by (simp add: train_batches_def)
  next
    case False
    with assms Some show ?thesis
      by (auto simp: train_batches_def Let_def split: if_splits)
  qed
qed

lemma batch_calls_flags:
  "length (batch_calls v) = length v"
  "i < length v \<Longrightarrow> batch_calls v ! i = (v ! i, i = 0, Suc i = length v)"
  by (auto simp: batch_calls_def nth_enumerate_eq)

lemma train_uniform_scenario:
  "train_batches 100 (Some [30]) = Inr [30, 30, 30, 10]"
  "train 100 (Some [30])
     = Inr [(30, True, False), (30, False, False), (30, False, False), (10, False, True)]"
  by (simp_all add: train_def train_batches_def uniform_batches_def batch_calls_def eval_simps
        eval_nat_numeral)

text \<open>
  C7. With \<open>num_timesteps = 100\<close> and the explicit batch sizes \<open>[60, 60]\<close> the batches
  computed are \<open>[60, 60]\<close>: the list is cut after the first batch that goes beyond the
  total, but its last value is not clipped, and the network is trained for 120 steps.
\<close>

theorem train_explicit_batches_exceed:
  "train_batches 100 (Some [60, 60]) = Inr [60, 60]
   \<and> sum_list [60, 60 :: int] = 120
   \<and> train 100 (Some [60, 60]) = Inr [(60, True, False), (60, False, True)]"
  by (simp add: train_def train_batches_def batch_calls_def)

end
